theory Spec2Isabelle
  imports Complex_Main
begin

section \<open>Python values of the dashboard script\<close>

text \<open>
  The model follows \<^verbatim>\<open>app.py\<close>. Python strings are byte strings here (UTF-8), Python
  integers are \<^typ>\<open>int\<close>, and every exception the script can meet is a value of
  \<open>exn\<close>; a computation that may raise returns \<open>exn + 'a\<close> with \<open>Inl\<close> for the raise.
  Only subclasses of \<^verbatim>\<open>Exception\<close> occur.
\<close>

datatype exn =
    KeyError string
  | IndexError
  | ValueError
  | AttributeError
  | ZeroDivisionError
  | OverflowError
  | BackendError string

text \<open>The "no data" marker of the table, the em dash U+2014, as its three UTF-8 bytes.\<close>

definition sentinel :: string where
  "sentinel = [CHR 0xE2, CHR 0x80, CHR 0x94]"

subsection \<open>float64 arithmetic\<close>

text \<open>
  pandas stores the column \<^verbatim>\<open>Total\<close>, built from \<^verbatim>\<open>None\<close> and integers, as float64 with
  NaN for \<^verbatim>\<open>None\<close>. A float64 is NaN or a finite value, kept as the rational it denotes.
  Every operation rounds its exact result to the nearest value with a 53-bit significand,
  ties to even (\<open>f64_round\<close>). The exponent is not bounded: for counts in the int64
  range, as the analytics backend reports them, no quotient, difference or product of
  the script leaves the normal range of float64, so infinities and subnormal numbers do
  not occur.
\<close>

datatype float64 = NaN | Fin rat

text \<open>Round half to even, to an integer.\<close>

definition rne :: "rat \<Rightarrow> int" where
  "rne q = (let f = \<lfloor>q\<rfloor>; r = q - of_int f
            in if r < 1 / 2 then f else if 1 / 2 < r then f + 1
               else if even f then f else f + 1)"

text \<open>\<^verbatim>\<open>int.bit_length\<close> of a positive integer (0 otherwise).\<close>

function bit_length :: "int \<Rightarrow> int" where
  "bit_length n = (if n \<le> 0 then 0 else 1 + bit_length (n div 2))"
  by pat_completeness auto
termination
  by (relation "measure nat") auto

declare bit_length.simps [simp del]

text \<open>The binary exponent of a positive rational: the largest \<open>k\<close> with \<open>2 ^ k \<le> q\<close>.\<close>

definition ilog2 :: "rat \<Rightarrow> int" where
  "ilog2 q = (let (n, d) = quotient_of q;
                  k = bit_length n - bit_length d
              in if 2 powi k \<le> q then k else k - 1)"

definition f64_round :: "rat \<Rightarrow> rat" where
  "f64_round q = (if q = 0 then 0
                  else let e = ilog2 \<bar>q\<bar> - 52
                       in of_int (rne (q / 2 powi e)) * 2 powi e)"

text \<open>An integer (or \<^verbatim>\<open>None\<close>) entering the float64 column.\<close>

definition to_float64 :: "int option \<Rightarrow> float64" where
  "to_float64 v = (case v of None \<Rightarrow> NaN | Some n \<Rightarrow> Fin (f64_round (of_int n)))"

text \<open>\<^verbatim>\<open>pd.notna(x)\<close> and \<^verbatim>\<open>x > 0\<close>; every comparison with NaN is false.\<close>

definition notna :: "float64 \<Rightarrow> bool" where
  "notna x = (case x of NaN \<Rightarrow> False | Fin v \<Rightarrow> True)"

definition gt0 :: "float64 \<Rightarrow> bool" where
  "gt0 x = (case x of NaN \<Rightarrow> False | Fin v \<Rightarrow> 0 < v)"

text \<open>
  \<^verbatim>\<open>a / b\<close>. NaN propagates. numpy answers a division of a finite value by zero with a
  warning and an infinity or NaN; the model makes it the error \<open>ZeroDivisionError\<close>, so
  that a result \<open>Inr\<close> of the funnel computation says that no such division took place.
\<close>

definition f64_div :: "float64 \<Rightarrow> float64 \<Rightarrow> exn + float64" where
  "f64_div a b =
     (case a of
        NaN \<Rightarrow> Inr NaN
      | Fin x \<Rightarrow>
          (case b of
             NaN \<Rightarrow> Inr NaN
           | Fin y \<Rightarrow> if y = 0 then Inl ZeroDivisionError else Inr (Fin (f64_round (x / y)))))"

text \<open>\<^verbatim>\<open>1 - x\<close>.\<close>

definition one_minus :: "float64 \<Rightarrow> float64" where
  "one_minus x = (case x of NaN \<Rightarrow> NaN | Fin v \<Rightarrow> Fin (f64_round (1 - v)))"

subsection \<open>Formatting\<close>

definition digit :: "int \<Rightarrow> char" where
  "digit d = ''0123456789'' ! nat d"

function dec :: "int \<Rightarrow> string" where
  "dec n = (if n < 10 then [digit n] else dec (n div 10) @ [digit (n mod 10)])"
  by pat_completeness auto
termination
  by (relation "measure nat") auto

declare dec.simps [simp del]

text \<open>
  The format \<^verbatim>\<open>.2%\<close>: the value is multiplied by 100 in float64, then printed with two
  decimals, the exact binary value rounded half to even; NaN prints as \<^verbatim>\<open>nan%\<close>.
\<close>

definition format_percent :: "float64 \<Rightarrow> string" where
  "format_percent x =
     (case x of
        NaN \<Rightarrow> ''nan%''
      | Fin v \<Rightarrow>
          (let p = f64_round (v * 100); c = rne (\<bar>p\<bar> * 100)
           in (if p < 0 then ''-'' else '''') @ dec (c div 100) @ ''.'' @
              [digit (c mod 100 div 10), digit (c mod 10)] @ ''%''))"

text \<open>The format \<^verbatim>\<open>,.0f\<close>: no decimals, groups of three digits separated by commas.\<close>

function group3 :: "int \<Rightarrow> string" where
  "group3 n = (if n < 1000 then dec n
               else group3 (n div 1000) @ '','' @
                    [digit (n mod 1000 div 100), digit (n mod 100 div 10), digit (n mod 10)])"
  by pat_completeness auto
termination
  by (relation "measure nat") auto

declare group3.simps [simp del]

definition format_thousands :: "float64 \<Rightarrow> string" where
  "format_thousands x =
     (case x of
        NaN \<Rightarrow> ''nan''
      | Fin v \<Rightarrow> (if v < 0 then ''-'' else '''') @ group3 (rne \<bar>v\<bar>))"

section \<open>The funnel table\<close>

text \<open>One entry of \<^verbatim>\<open>funnel_steps\<close>: \<^verbatim>\<open>{"Step": ..., "Total": ...}\<close>.\<close>

record funnel_step =
  Step :: string
  Total :: "int option"

text \<open>
  The data frame after the script has run, column by column: \<^verbatim>\<open>Step\<close>, \<^verbatim>\<open>Total\<close> (as
  rendered by the last assignment), \<^verbatim>\<open>% of Impressions\<close> and \<^verbatim>\<open>Drop-off\<close>.
\<close>

record funnel_table =
  step_col :: "string list"
  total_col :: "string list"
  pct_col :: "string list"
  drop_off_col :: "string list"

text \<open>\<^verbatim>\<open>series.iloc[i]\<close> for \<open>i \<ge> 0\<close>; out of range it raises \<^verbatim>\<open>IndexError\<close>.\<close>

definition iloc :: "'a list \<Rightarrow> nat \<Rightarrow> exn + 'a" where
  "iloc xs i = (if i < length xs then Inr (xs ! i) else Inl IndexError)"

text \<open>The loop over \<^verbatim>\<open>funnel_df["Total"].iloc[1:]\<close> that fills \<^verbatim>\<open>percentages\<close>.\<close>

fun percentages_loop :: "float64 list \<Rightarrow> float64 \<Rightarrow> exn + string list" where
  "percentages_loop [] baseline_total = Inr []"
| "percentages_loop (tot # rest) baseline_total =
     (case f64_div tot baseline_total of
        Inl e \<Rightarrow> Inl e
      | Inr q \<Rightarrow>
          (case percentages_loop rest baseline_total of
             Inl e \<Rightarrow> Inl e
           | Inr ps \<Rightarrow> Inr (format_percent q # ps)))"

text \<open>The body of the loop \<^verbatim>\<open>for i in range(1, len(funnel_df) - 1)\<close>.\<close>

definition drop_off_cell :: "float64 list \<Rightarrow> nat \<Rightarrow> exn + string" where
  "drop_off_cell totals i =
     (case iloc totals i of
        Inl e \<Rightarrow> Inl e
      | Inr current \<Rightarrow>
          (case iloc totals (i + 1) of
             Inl e \<Rightarrow> Inl e
           | Inr next_val \<Rightarrow>
               if notna current \<and> gt0 current \<and> notna next_val
               then (case f64_div next_val current of
                       Inl e \<Rightarrow> Inl e
                     | Inr q \<Rightarrow> Inr (format_percent (one_minus q)))
               else Inr sentinel))"

fun drop_offs_loop :: "float64 list \<Rightarrow> nat list \<Rightarrow> exn + string list" where
  "drop_offs_loop totals [] = Inr []"
| "drop_offs_loop totals (i # rest) =
     (case drop_off_cell totals i of
        Inl e \<Rightarrow> Inl e
      | Inr c \<Rightarrow>
          (case drop_offs_loop totals rest of
             Inl e \<Rightarrow> Inl e
           | Inr cs \<Rightarrow> Inr (c # cs)))"

text \<open>
  \<^verbatim>\<open>funnel_df[name] = values\<close> for a list: pandas raises \<^verbatim>\<open>ValueError\<close> unless the list
  is as long as the frame.
\<close>

definition assign_column :: "nat \<Rightarrow> string list \<Rightarrow> exn + string list" where
  "assign_column n col = (if length col = n then Inr col else Inl ValueError)"

text \<open>The last assignment of the script: \<^verbatim>\<open>f"{x:,.0f}" if pd.notna(x) else "\<emdash>"\<close>.\<close>

definition render_total :: "float64 \<Rightarrow> string" where
  "render_total x = (if notna x then format_thousands x else sentinel)"

text \<open>
  The derived columns (\<^verbatim>\<open>funnel_df = pd.DataFrame(funnel_steps)\<close> up to the rendering of
  \<^verbatim>\<open>Total\<close>), for any list of steps. A frame made from the empty list has no columns:
  the guard fails, the two derived columns are created empty, and the last line's read
  of the column \<^verbatim>\<open>Total\<close> raises \<^verbatim>\<open>KeyError\<close>.
\<close>

definition funnel_df :: "funnel_step list \<Rightarrow> exn + funnel_table" where
  "funnel_df funnel_steps =
     (let totals = map (\<lambda>s. to_float64 (Total s)) funnel_steps;
          n = length funnel_steps;
          steps = map Step funnel_steps;
          rendered = map render_total totals
      in if funnel_steps = [] then Inl (KeyError ''Total'')
         else if 1 < n \<and> notna (totals ! 1) \<and> gt0 (totals ! 1)
         then
           (let baseline_total = totals ! 1
            in case percentages_loop (drop 1 totals) baseline_total of
                 Inl e \<Rightarrow> Inl e
               | Inr ps \<Rightarrow>
                   (case assign_column n (sentinel # ps) of
                      Inl e \<Rightarrow> Inl e
                    | Inr percentages \<Rightarrow>
                        (case drop_offs_loop totals [1..<n - 1] of
                           Inl e \<Rightarrow> Inl e
                         | Inr ds \<Rightarrow>
                             (case assign_column n (sentinel # ds @ [sentinel]) of
                                Inl e \<Rightarrow> Inl e
                              | Inr drop_offs \<Rightarrow>
                                  Inr \<lparr>step_col = steps, total_col = rendered,
                                       pct_col = percentages, drop_off_col = drop_offs\<rparr>))))
         else Inr \<lparr>step_col = steps, total_col = rendered,
                   pct_col = replicate n sentinel, drop_off_col = replicate n sentinel\<rparr>)"

subsection \<open>From the report to the steps\<close>

text \<open>What \<^verbatim>\<open>run_ga4_report\<close> returns: an integer, or a dict from dimension value to integer.\<close>

datatype report_result = Count int | Mapping "string \<rightharpoonup> int"

text \<open>\<^verbatim>\<open>d.get(key, default)\<close>.\<close>

definition dict_get :: "(string \<rightharpoonup> int) \<Rightarrow> string \<Rightarrow> int \<Rightarrow> int" where
  "dict_get d k dflt = (case d k of None \<Rightarrow> dflt | Some v \<Rightarrow> v)"

text \<open>
  The three reads of \<^verbatim>\<open>funnel_event_counts\<close> and the list \<^verbatim>\<open>funnel_steps\<close>. An integer
  has no \<^verbatim>\<open>get\<close>: the read would raise \<^verbatim>\<open>AttributeError\<close>.
\<close>

definition funnel_steps :: "report_result \<Rightarrow> exn + funnel_step list" where
  "funnel_steps funnel_event_counts =
     (case funnel_event_counts of
        Count c \<Rightarrow> Inl AttributeError
      | Mapping d \<Rightarrow>
          (let page_views = dict_get d ''page_view'' 0;
               register_clicks = dict_get d ''click_register'' 0;
               discord_signins = dict_get d ''discord_signin'' 0
           in Inr [\<lparr>Step = ''Social Media Impressions'', Total = None\<rparr>,
                   \<lparr>Step = ''Landing Page Visits'', Total = Some page_views\<rparr>,
                   \<lparr>Step = ''Clicked Register'', Total = Some register_clicks\<rparr>,
                   \<lparr>Step = ''Signed in with Discord'', Total = Some discord_signins\<rparr>]))"

text \<open>The funnel computation on a report result: the steps, then the derived columns.\<close>

definition funnel_of_counts :: "report_result \<Rightarrow> exn + funnel_table" where
  "funnel_of_counts funnel_event_counts =
     (case funnel_steps funnel_event_counts of
        Inl e \<Rightarrow> Inl e
      | Inr steps \<Rightarrow> funnel_df steps)"

section \<open>The report query\<close>

subsection \<open>Requests and responses of the analytics client\<close>

text \<open>
  The request and response types belong to the analytics client library; the model keeps
  the fields the script sets or reads. \<open>match_type\<close> is the library's enumeration
  \<^verbatim>\<open>Filter.StringFilter.MatchType\<close>.
\<close>

datatype match_type =
    MATCH_TYPE_UNSPECIFIED
  | EXACT
  | BEGINS_WITH
  | ENDS_WITH
  | CONTAINS
  | FULL_REGEXP
  | PARTIAL_REGEXP

definition match_type_names :: "(string \<times> match_type) list" where
  "match_type_names =
     [(''MATCH_TYPE_UNSPECIFIED'', MATCH_TYPE_UNSPECIFIED),
      (''EXACT'', EXACT),
      (''BEGINS_WITH'', BEGINS_WITH),
      (''ENDS_WITH'', ENDS_WITH),
      (''CONTAINS'', CONTAINS),
      (''FULL_REGEXP'', FULL_REGEXP),
      (''PARTIAL_REGEXP'', PARTIAL_REGEXP)]"

text \<open>\<^verbatim>\<open>MatchType[name]\<close>: the member of that name, or \<^verbatim>\<open>KeyError\<close>.\<close>

definition MatchType_lookup :: "string \<Rightarrow> exn + match_type" where
  "MatchType_lookup name =
     (case map_of match_type_names name of
        None \<Rightarrow> Inl (KeyError name)
      | Some mt \<Rightarrow> Inr mt)"

text \<open>
  \<^verbatim>\<open>str.upper\<close>: the letters a to z become A to Z. Bytes outside ASCII are left as they
  are (Python also maps the cased letters beyond ASCII).
\<close>

definition lower_letters :: string where
  "lower_letters = ''abcdefghijklmnopqrstuvwxyz''"

definition upper_letters :: string where
  "upper_letters = ''ABCDEFGHIJKLMNOPQRSTUVWXYZ''"

definition upper_char :: "char \<Rightarrow> char" where
  "upper_char c =
     (case map_of (zip lower_letters upper_letters) c of None \<Rightarrow> c | Some u \<Rightarrow> u)"

definition str_upper :: "string \<Rightarrow> string" where
  "str_upper s = map upper_char s"

record StringFilter =
  filter_value :: string
  match_type :: match_type

record Filter =
  field_name :: string
  string_filter :: StringFilter

text \<open>
  \<^verbatim>\<open>FilterExpression(filter=f)\<close> and
  \<^verbatim>\<open>FilterExpression(and_group=FilterExpressionList(expressions=es))\<close>.
\<close>

datatype FilterExpression =
    FilterExpression_filter Filter
  | FilterExpression_and_group "FilterExpression list"

datatype Metric = Metric string

datatype Dimension = Dimension string

record DateRange =
  start_date :: string
  end_date :: string

record RunReportRequest =
  property :: string
  metrics :: "Metric list"
  date_ranges :: "DateRange list"
  dimensions :: "Dimension list option"
  dimension_filter :: "FilterExpression option"

text \<open>A row of the response: the \<^verbatim>\<open>value\<close> strings of its dimension and metric values.\<close>

record Row =
  dimension_values :: "string list"
  metric_values :: "string list"

record RunReportResponse =
  rows :: "Row list"

text \<open>
  A \<^verbatim>\<open>datetime\<close>: the day as its proleptic Gregorian ordinal (\<^verbatim>\<open>toordinal()\<close>), the time
  of day, and the name of its time zone.
\<close>

record datetime =
  ordinal :: int
  hour :: int
  minute :: int
  second :: int
  microsecond :: int
  tzinfo :: string

text \<open>
  What the script takes from outside: the secret \<^verbatim>\<open>GA4_PROPERTY_ID\<close>, the backend behind
  \<^verbatim>\<open>ga4.run_report\<close> (it answers or raises), the library functions \<^verbatim>\<open>strftime\<close> and
  \<^verbatim>\<open>int\<close> on strings, and the clock \<^verbatim>\<open>datetime.now(pytz.timezone(name))\<close>.
\<close>

record env =
  property_id :: string
  run_report :: "RunReportRequest \<Rightarrow> exn + RunReportResponse"
  strftime :: "datetime \<Rightarrow> string \<Rightarrow> string"
  int_of_str :: "string \<Rightarrow> exn + int"
  now_in :: "string \<Rightarrow> datetime"

subsection \<open>run\_ga4\_report\<close>

definition format_date :: "env \<Rightarrow> datetime \<Rightarrow> string" where
  "format_date E dt = strftime E dt ''%Y-%m-%d''"

text \<open>Truth value of an optional tuple: \<^verbatim>\<open>None\<close> and the empty tuple are false.\<close>

definition truthy :: "'a list option \<Rightarrow> bool" where
  "truthy t = (case t of None \<Rightarrow> False | Some xs \<Rightarrow> xs \<noteq> [])"

text \<open>The loop \<^verbatim>\<open>for spec in filter_specs\<close>; it stops at the first unknown match type.\<close>

fun filters_loop :: "(string \<times> string \<times> string) list \<Rightarrow> exn + Filter list" where
  "filters_loop [] = Inr []"
| "filters_loop ((fname, v, match_type_str) # specs) =
     (case MatchType_lookup (str_upper match_type_str) of
        Inl e \<Rightarrow> Inl e
      | Inr mt \<Rightarrow>
          (case filters_loop specs of
             Inl e \<Rightarrow> Inl e
           | Inr filters \<Rightarrow>
               Inr (\<lparr>field_name = fname,
                     string_filter = \<lparr>filter_value = v, match_type = mt\<rparr>\<rparr> # filters)))"

definition filter_expression_of ::
  "(string \<times> string \<times> string) list option \<Rightarrow> exn + FilterExpression option" where
  "filter_expression_of filter_specs =
     (if truthy filter_specs
      then (case filters_loop (the filter_specs) of
              Inl e \<Rightarrow> Inl e
            | Inr filters \<Rightarrow>
                if length filters = 1
                then Inr (Some (FilterExpression_filter (filters ! 0)))
                else Inr (Some (FilterExpression_and_group
                                  (map FilterExpression_filter filters))))
      else Inr None)"

text \<open>The request, as the \<^verbatim>\<open>try\<close> block builds it before the call.\<close>

definition build_request ::
  "env \<Rightarrow> string list \<Rightarrow> datetime \<Rightarrow> datetime \<Rightarrow> string list option \<Rightarrow>
   (string \<times> string \<times> string) list option \<Rightarrow> exn + RunReportRequest" where
  "build_request E metric_names start_dt end_dt dimension_names filter_specs =
     (let ms = map Metric metric_names;
          ds = (if truthy dimension_names then Some (map Dimension (the dimension_names))
                else None)
      in case filter_expression_of filter_specs of
           Inl e \<Rightarrow> Inl e
         | Inr filter_expression \<Rightarrow>
             Inr \<lparr>property = ''properties/'' @ property_id E,
                  metrics = ms,
                  date_ranges = [\<lparr>start_date = format_date E start_dt,
                                  end_date = format_date E end_dt\<rparr>],
                  dimensions = ds,
                  dimension_filter = filter_expression\<rparr>)"

text \<open>\<^verbatim>\<open>int(row.metric_values[0].value)\<close>.\<close>

definition first_metric :: "env \<Rightarrow> Row \<Rightarrow> exn + int" where
  "first_metric E row =
     (case metric_values row of [] \<Rightarrow> Inl IndexError | m # ms \<Rightarrow> int_of_str E m)"

text \<open>The loop \<^verbatim>\<open>for row in response.rows\<close> that fills the dict \<^verbatim>\<open>result\<close>.\<close>

fun rows_loop :: "env \<Rightarrow> Row list \<Rightarrow> (string \<rightharpoonup> int) \<Rightarrow> exn + (string \<rightharpoonup> int)" where
  "rows_loop E [] result = Inr result"
| "rows_loop E (row # rest) result =
     (case dimension_values row of
        [] \<Rightarrow> Inl IndexError
      | dimension_value # dvs \<Rightarrow>
          (case first_metric E row of
             Inl e \<Rightarrow> Inl e
           | Inr metric_value \<Rightarrow>
               rows_loop E rest (result(dimension_value \<mapsto> metric_value))))"

text \<open>The shaping of the response; \<^verbatim>\<open>not dimensions\<close> holds for \<^verbatim>\<open>None\<close> and the empty list.\<close>

definition shape_response ::
  "env \<Rightarrow> Dimension list option \<Rightarrow> RunReportResponse \<Rightarrow> exn + report_result" where
  "shape_response E ds response =
     (if \<not> truthy ds
      then (case rows response of
              [] \<Rightarrow> Inr (Count 0)
            | row # rest \<Rightarrow>
                (case first_metric E row of Inl e \<Rightarrow> Inl e | Inr n \<Rightarrow> Inr (Count n)))
      else (case rows_loop E (rows response) Map.empty of
              Inl e \<Rightarrow> Inl e
            | Inr result \<Rightarrow> Inr (Mapping result)))"

text \<open>The body of the \<^verbatim>\<open>try\<close> block.\<close>

definition try_body ::
  "env \<Rightarrow> string list \<Rightarrow> datetime \<Rightarrow> datetime \<Rightarrow> string list option \<Rightarrow>
   (string \<times> string \<times> string) list option \<Rightarrow> exn + report_result" where
  "try_body E metric_names start_dt end_dt dimension_names filter_specs =
     (case build_request E metric_names start_dt end_dt dimension_names filter_specs of
        Inl e \<Rightarrow> Inl e
      | Inr request \<Rightarrow>
          (case run_report E request of
             Inl e \<Rightarrow> Inl e
           | Inr response \<Rightarrow> shape_response E (dimensions request) response))"

text \<open>
  \<^verbatim>\<open>run_ga4_report\<close>: the value returned, and the exception shown with \<^verbatim>\<open>st.error\<close> if
  the \<^verbatim>\<open>except\<close> branch ran. The one-hour cache in front of the function returns what
  an earlier identical call returned and is left out.
\<close>

definition run_ga4_report ::
  "env \<Rightarrow> string list \<Rightarrow> datetime \<Rightarrow> datetime \<Rightarrow> string list option \<Rightarrow>
   (string \<times> string \<times> string) list option \<Rightarrow> report_result \<times> exn option" where
  "run_ga4_report E metric_names start_dt end_dt dimension_names filter_specs =
     (case try_body E metric_names start_dt end_dt dimension_names filter_specs of
        Inl e \<Rightarrow> (if truthy dimension_names then Mapping Map.empty else Count 0, Some e)
      | Inr r \<Rightarrow> (r, None))"

section \<open>The script\<close>

definition TIMEZONE :: string where
  "TIMEZONE = ''America/Los_Angeles''"

definition LOOKBACK_OPTIONS :: "int list" where
  "LOOKBACK_OPTIONS = [7, 14, 30]"

text \<open>
  \<^verbatim>\<open>timedelta(days=d)\<close>, and a \<^verbatim>\<open>datetime\<close> minus a whole number of days: the library
  computes on the ordinal and raises \<^verbatim>\<open>OverflowError\<close> outside the years 1 to 9999.
\<close>

definition timedelta :: "int \<Rightarrow> exn + int" where
  "timedelta days = (if \<bar>days\<bar> \<le> 999999999 then Inr days else Inl OverflowError)"

definition MAXORDINAL :: int where
  "MAXORDINAL = 3652059"

definition datetime_sub :: "datetime \<Rightarrow> int \<Rightarrow> exn + datetime" where
  "datetime_sub dt days =
     (let d = ordinal dt - days
      in if 0 < d \<and> d \<le> MAXORDINAL then Inr (dt\<lparr>ordinal := d\<rparr>) else Inl OverflowError)"

text \<open>
  The date handling: \<^verbatim>\<open>now\<close>, \<^verbatim>\<open>today_start_la\<close>, \<^verbatim>\<open>today_end_la\<close>, and the pair
  \<^verbatim>\<open>(range_start, range_end)\<close> for the selected \<^verbatim>\<open>lookback_days\<close>.
\<close>

definition date_handling :: "env \<Rightarrow> int \<Rightarrow> exn + datetime \<times> datetime" where
  "date_handling E lookback_days =
     (let now = now_in E TIMEZONE;
          today_start_la = now\<lparr>hour := 0, minute := 0, second := 0, microsecond := 0\<rparr>;
          today_end_la = now
      in case timedelta (lookback_days - 1) of
           Inl e \<Rightarrow> Inl e
         | Inr delta \<Rightarrow>
             (case datetime_sub today_start_la delta of
                Inl e \<Rightarrow> Inl e
              | Inr range_start \<Rightarrow> Inr (range_start, today_end_la)))"

definition funnel_event_names_regex :: string where
  "funnel_event_names_regex = ''page_view|click_register|discord_signin''"

definition funnel_event_counts :: "env \<Rightarrow> datetime \<Rightarrow> datetime \<Rightarrow> report_result \<times> exn option" where
  "funnel_event_counts E range_start range_end =
     run_ga4_report E [''totalUsers''] range_start range_end (Some [''eventName''])
       (Some [(''eventName'', funnel_event_names_regex, ''FULL_REGEXP'')])"

text \<open>
  The funnel part of one run of the script: the table, and the exception reported by
  \<^verbatim>\<open>run_ga4_report\<close> if there was one.
\<close>

definition dashboard_funnel :: "env \<Rightarrow> int \<Rightarrow> exn + funnel_table \<times> exn option" where
  "dashboard_funnel E lookback_days =
     (case date_handling E lookback_days of
        Inl e \<Rightarrow> Inl e
      | Inr (range_start, range_end) \<Rightarrow>
          (case funnel_event_counts E range_start range_end of
             (counts, reported) \<Rightarrow>
               (case funnel_of_counts counts of
                  Inl e \<Rightarrow> Inl e
                | Inr table \<Rightarrow> Inr (table, reported))))"

section \<open>Notions used in the statements\<close>

text \<open>The quotient of two float64 values when the divisor is not zero.\<close>

definition f64_quot :: "float64 \<Rightarrow> float64 \<Rightarrow> float64" where
  "f64_quot a b =
     (case a of
        NaN \<Rightarrow> NaN
      | Fin x \<Rightarrow> (case b of NaN \<Rightarrow> NaN | Fin y \<Rightarrow> Fin (f64_round (x / y))))"

text \<open>The baseline, stage 1, has a total that is present and positive.\<close>

definition baseline_positive :: "funnel_step list \<Rightarrow> bool" where
  "baseline_positive steps =
     (1 < length steps \<and> (case Total (steps ! 1) of None \<Rightarrow> False | Some b \<Rightarrow> 0 < b))"

text \<open>
  The drop-off of stage \<open>i\<close> as the specification words it: for \<open>1 \<le> i \<le> n - 2\<close>, with the
  total of stage \<open>i\<close> present and positive and the total of stage \<open>i + 1\<close> present,
  \<open>1 - total (i + 1) / total i\<close> as a percentage with two decimals; the sentinel otherwise.
\<close>

definition drop_off_spec :: "funnel_step list \<Rightarrow> nat \<Rightarrow> string" where
  "drop_off_spec steps i =
     (if 1 \<le> i \<and> i + 2 \<le> length steps
      then (case Total (steps ! i) of
              None \<Rightarrow> sentinel
            | Some current \<Rightarrow>
                (case Total (steps ! (i + 1)) of
                   None \<Rightarrow> sentinel
                 | Some next_val \<Rightarrow>
                     if 0 < current
                     then format_percent
                            (one_minus (f64_quot (to_float64 (Some next_val))
                                                 (to_float64 (Some current))))
                     else sentinel))
      else sentinel)"

text \<open>The drop-off cell of row \<open>i\<close> in terms of the float64 column.\<close>

definition cell_value :: "float64 list \<Rightarrow> nat \<Rightarrow> string" where
  "cell_value totals i =
     (if notna (totals ! i) \<and> gt0 (totals ! i) \<and> notna (totals ! (i + 1))
      then format_percent (one_minus (f64_quot (totals ! (i + 1)) (totals ! i)))
      else sentinel)"

text \<open>The string filter that one filter triple stands for, if its match mode resolves.\<close>

definition filter_of_spec :: "string \<times> string \<times> string \<Rightarrow> Filter option" where
  "filter_of_spec spec =
     (case spec of
        (fname, v, match_type_str) \<Rightarrow>
          (case MatchType_lookup (str_upper match_type_str) of
             Inl e \<Rightarrow> None
           | Inr mt \<Rightarrow>
               Some \<lparr>field_name = fname,
                     string_filter = \<lparr>filter_value = v, match_type = mt\<rparr>\<rparr>))"

text \<open>
  The request of the funnel: the metric \<^verbatim>\<open>totalUsers\<close> by \<^verbatim>\<open>eventName\<close>, over the range, with
  one filter, a full regular expression match of \<^verbatim>\<open>eventName\<close> against the alternation.
\<close>

definition funnel_request :: "env \<Rightarrow> datetime \<Rightarrow> datetime \<Rightarrow> RunReportRequest" where
  "funnel_request E range_start range_end =
     \<lparr>property = ''properties/'' @ property_id E,
      metrics = [Metric ''totalUsers''],
      date_ranges = [\<lparr>start_date = format_date E range_start,
                      end_date = format_date E range_end\<rparr>],
      dimensions = Some [Dimension ''eventName''],
      dimension_filter =
        Some (FilterExpression_filter
                \<lparr>field_name = ''eventName'',
                 string_filter =
                   \<lparr>filter_value = ''page_view|click_register|discord_signin'',
                    match_type = FULL_REGEXP\<rparr>\<rparr>)\<rparr>"

text \<open>The table of a funnel whose three counts are 0.\<close>

definition zero_table :: funnel_table where
  "zero_table =
     \<lparr>step_col = [''Social Media Impressions'', ''Landing Page Visits'',
                  ''Clicked Register'', ''Signed in with Discord''],
      total_col = [sentinel, ''0'', ''0'', ''0''],
      pct_col = [sentinel, sentinel, sentinel, sentinel],
      drop_off_col = [sentinel, sentinel, sentinel, sentinel]\<rparr>"

text \<open>Two characters, and two strings, that differ at most in the case of letters.\<close>

definition same_letter :: "char \<Rightarrow> char \<Rightarrow> bool" where
  "same_letter a b =
     (a = b \<or> (a, b) \<in> set (zip lower_letters upper_letters)
            \<or> (b, a) \<in> set (zip lower_letters upper_letters))"

definition differ_only_in_case :: "string \<Rightarrow> string \<Rightarrow> bool" where
  "differ_only_in_case s t = list_all2 same_letter s t"

section \<open>Example environments\<close>

text \<open>A moment of the clock, and two backends: one that refuses, one that answers 42.\<close>

definition example_now :: datetime where
  "example_now =
     \<lparr>ordinal = 739000, hour = 9, minute = 30, second = 0, microsecond = 0,
      tzinfo = ''America/Los_Angeles''\<rparr>"

definition failing_env :: env where
  "failing_env =
     \<lparr>property_id = ''123456'',
      run_report = (\<lambda>request. Inl (BackendError ''403 permission denied'')),
      strftime = (\<lambda>dt fmt. ''2024-05-01''),
      int_of_str = (\<lambda>s. Inl ValueError),
      now_in = (\<lambda>tz. example_now)\<rparr>"

definition answering_env :: env where
  "answering_env =
     \<lparr>property_id = ''123456'',
      run_report =
        (\<lambda>request. Inr \<lparr>rows = [\<lparr>dimension_values = [], metric_values = [''42'']\<rparr>]\<rparr>),
      strftime = (\<lambda>dt fmt. ''2024-05-01''),
      int_of_str = (\<lambda>s. if s = ''42'' then Inr 42 else Inl ValueError),
      now_in = (\<lambda>tz. example_now)\<rparr>"

section \<open>The worked example\<close>

text \<open>
  C1. With the event counts page_view = 1000, click_register = 250 and
  discord_signin = 40 the funnel table has the percentages 100.00%, 25.00% and 4.00% of
  the baseline, the drop-offs 75.00% (landing page visits to clicked register) and
  84.00% (clicked register to signed in), and the sentinel in the placeholder row's
  percentage and drop-off and in the last row's drop-off.
\<close>

theorem funnel_example:
  "funnel_of_counts
     (Mapping [''page_view'' \<mapsto> 1000, ''click_register'' \<mapsto> 250, ''discord_signin'' \<mapsto> 40])
   = Inr \<lparr>step_col = [''Social Media Impressions'', ''Landing Page Visits'',
                       ''Clicked Register'', ''Signed in with Discord''],
          total_col = [sentinel, ''1,000'', ''250'', ''40''],
          pct_col = [sentinel, ''100.00%'', ''25.00%'', ''4.00%''],
          drop_off_col = [sentinel, ''75.00%'', ''84.00%'', sentinel]\<rparr>"
  by code_simp

section \<open>Facts about the float64 model\<close>

lemma bit_length_nonneg: "0 \<le> bit_length n"
proof (induction n rule: bit_length.induct)
  case (1 n)
  show ?case
  proof (cases "n \<le> 0")
    case True
    then show ?thesis by (simp add: bit_length.simps[of n])
  next
    case False
    with 1 have "0 \<le> bit_length (n div 2)" by simp
    with False show ?thesis by (simp add: bit_length.simps[of n])
  qed
qed

lemma bit_length_pos: "0 < n \<Longrightarrow> 1 \<le> bit_length n"
  using bit_length_nonneg[of "n div 2"] by (simp add: bit_length.simps[of n])

lemma bit_length_bounds:
  "0 < n \<Longrightarrow> 2 ^ nat (bit_length n - 1) \<le> n \<and> n < 2 ^ nat (bit_length n)"
proof (induction n rule: bit_length.induct)
  case (1 n)
  show ?case
  proof (cases "n div 2 = 0")
    case True
    with 1(2) have "n = 1" by presburger
    then show ?thesis by (simp add: bit_length.simps[of 1] bit_length.simps[of 0])
  next
    case False
    with 1(2) have pos: "0 < n div 2" by presburger
    from 1(1) 1(2) pos have IH: "2 ^ nat (bit_length (n div 2) - 1) \<le> n div 2"
      "n div 2 < 2 ^ nat (bit_length (n div 2))" by auto
    have bl: "bit_length n = 1 + bit_length (n div 2)"
      using 1(2) by (simp add: bit_length.simps[of n])
    have p: "1 \<le> bit_length (n div 2)" using pos by (rule bit_length_pos)
    then have "nat (bit_length (n div 2)) = Suc (nat (bit_length (n div 2) - 1))"
      by simp
    then have e: "(2::int) ^ nat (bit_length (n div 2)) = 2 * 2 ^ nat (bit_length (n div 2) - 1)"
      by simp
    have "2 * (n div 2) \<le> n" by presburger
    with IH(1) e have lo: "2 ^ nat (bit_length (n div 2)) \<le> n" by linarith
    have s: "nat (bit_length n) = Suc (nat (bit_length (n div 2)))"
      using bl p by simp
    have "n < 2 * (n div 2) + 2" by presburger
    with IH(2) have hi: "n < 2 * 2 ^ nat (bit_length (n div 2))" by linarith
    show ?thesis using lo hi bl s by simp
  qed
qed

text \<open>The exponent found by \<open>ilog2\<close> is not too large.\<close>

lemma ilog2_le:
  assumes "0 < q"
  shows "2 powi ilog2 q \<le> q"
proof -
  obtain n d where nd: "quotient_of q = (n, d)" by (cases "quotient_of q")
  then have d: "0 < d" and q: "q = of_int n / of_int d"
    using quotient_of_denom_pos quotient_of_div by auto
  with assms have n: "0 < n" by (simp add: zero_less_divide_iff)
  let ?k = "bit_length n - bit_length d"
  have "2 powi (?k - 1) \<le> q"
  proof -
    have a: "(2::rat) ^ nat (bit_length n - 1) \<le> of_int n"
      using bit_length_bounds[OF n] by (metis of_int_le_iff of_int_numeral of_int_power)
    have b: "of_int d \<le> (2::rat) ^ nat (bit_length d)"
      using bit_length_bounds[OF d] by (metis less_imp_le of_int_le_iff of_int_numeral of_int_power)
    have "2 powi (?k - 1) = (2::rat) powi (bit_length n - 1) / 2 powi (bit_length d)"
      by (simp add: power_int_diff)
    also have "\<dots> = 2 ^ nat (bit_length n - 1) / 2 ^ nat (bit_length d)"
      using bit_length_pos[OF n] bit_length_nonneg[of d] by (simp add: power_int_def)
    also have "\<dots> \<le> of_int n / of_int d"
      using a b d n by (intro frac_le) auto
    finally show ?thesis using q by simp
  qed
  then show ?thesis using nd by (simp add: ilog2_def Let_def)
qed

lemma rne_ge_floor: "\<lfloor>x\<rfloor> \<le> rne x"
  by (simp add: rne_def Let_def)

lemma rne_cases: "rne x = \<lfloor>x\<rfloor> \<or> rne x = \<lfloor>x\<rfloor> + 1"
  by (simp add: rne_def Let_def)

lemma rne_nonpos:
  assumes "x \<le> 0"
  shows "rne x \<le> 0"
proof -
  let ?f = "\<lfloor>x\<rfloor>"
  have f0: "?f \<le> 0" using assms by (simp add: floor_le_zero)
  show ?thesis
  proof (cases "x - of_int ?f < 1 / 2")
    case True
    then show ?thesis using f0 by (simp add: rne_def Let_def)
  next
    case False
    then have "of_int ?f < x" by linarith
    with assms have "(of_int ?f :: rat) < 0" by linarith
    then have "?f < 0" by (simp only: of_int_less_0_iff)
    then have f1: "?f + 1 \<le> 0" by linarith
    from rne_cases[of x] show ?thesis
    proof
      assume "rne x = ?f"
      with f0 show ?thesis by (simp only:)
    next
      assume "rne x = ?f + 1"
      with f1 show ?thesis by (simp only:)
    qed
  qed
qed

text \<open>Rounding keeps the sign: a positive value stays positive, zero stays zero.\<close>

lemma f64_round_pos:
  assumes "0 < q"
  shows "0 < f64_round q"
proof -
  let ?e = "ilog2 \<bar>q\<bar> - 52"
  have p: "(0::rat) < 2 powi ?e" by simp
  have "(2::rat) powi ?e \<le> 2 powi ilog2 q" using assms by (intro power_int_increasing) auto
  also have "\<dots> \<le> q" using assms by (rule ilog2_le)
  finally have "1 \<le> q / 2 powi ?e" using p by (simp add: pos_le_divide_eq)
  then have "1 \<le> \<lfloor>q / 2 powi ?e\<rfloor>" by simp
  then have "1 \<le> rne (q / 2 powi ?e)" using rne_ge_floor[of "q / 2 powi ?e"] by linarith
  then have "0 < (of_int (rne (q / 2 powi ?e)) :: rat)" by simp
  then have "0 < (of_int (rne (q / 2 powi ?e)) :: rat) * 2 powi ?e" using p by simp
  then show ?thesis using assms by (simp add: f64_round_def Let_def)
qed

lemma f64_round_nonpos:
  assumes "q \<le> 0"
  shows "f64_round q \<le> 0"
proof -
  let ?e = "ilog2 \<bar>q\<bar> - 52"
  have p: "(0::rat) < 2 powi ?e" by simp
  have "q / 2 powi ?e \<le> 0" using assms p by (simp add: divide_le_0_iff)
  then have "rne (q / 2 powi ?e) \<le> 0" by (rule rne_nonpos)
  then have "(of_int (rne (q / 2 powi ?e)) :: rat) \<le> 0" by simp
  then have "(of_int (rne (q / 2 powi ?e)) :: rat) * 2 powi ?e \<le> 0"
    using p by (simp add: mult_le_0_iff)
  then show ?thesis by (simp add: f64_round_def Let_def)
qed

lemma gt0_to_float64: "gt0 (to_float64 v) \<longleftrightarrow> (case v of None \<Rightarrow> False | Some n \<Rightarrow> 0 < n)"
proof (cases v)
  case None
  then show ?thesis by (simp add: gt0_def to_float64_def)
next
  case (Some n)
  show ?thesis
  proof (cases "0 < n")
    case True
    then have "0 < f64_round (of_int n)" by (intro f64_round_pos) simp
    with True Some show ?thesis by (simp add: gt0_def to_float64_def)
  next
    case False
    then have "f64_round (of_int n) \<le> 0" by (intro f64_round_nonpos) simp
    with False Some show ?thesis by (simp add: gt0_def to_float64_def)
  qed
qed

lemma notna_to_float64: "notna (to_float64 v) \<longleftrightarrow> v \<noteq> None"
  by (cases v) (simp_all add: notna_def to_float64_def)

lemma gt0_notna: "gt0 x \<Longrightarrow> notna x"
  by (cases x) (simp_all add: gt0_def notna_def)

section \<open>The derived columns in closed form\<close>

lemma f64_div_quot: "gt0 b \<Longrightarrow> f64_div a b = Inr (f64_quot a b)"
  by (cases a; cases b) (simp_all add: gt0_def f64_div_def f64_quot_def)

lemma percentages_loop_eq:
  "gt0 b \<Longrightarrow> percentages_loop ts b = Inr (map (\<lambda>t. format_percent (f64_quot t b)) ts)"
  by (induction ts) (simp_all add: f64_div_quot)

lemma drop_off_cell_eq:
  "i + 1 < length totals \<Longrightarrow> drop_off_cell totals i = Inr (cell_value totals i)"
  by (simp add: drop_off_cell_def iloc_def cell_value_def f64_div_quot)

lemma drop_offs_loop_eq:
  "(\<And>i. i \<in> set js \<Longrightarrow> i + 1 < length totals) \<Longrightarrow>
   drop_offs_loop totals js = Inr (map (cell_value totals) js)"
  by (induction js) (simp_all add: drop_off_cell_eq)

lemma baseline_guard:
  "(1 < length steps \<and> notna (map (\<lambda>s. to_float64 (Total s)) steps ! 1)
      \<and> gt0 (map (\<lambda>s. to_float64 (Total s)) steps ! 1)) \<longleftrightarrow> baseline_positive steps"
  by (cases "1 < length steps")
     (auto simp: baseline_positive_def gt0_to_float64 notna_to_float64 split: option.splits)

lemma funnel_df_eq:
  "steps \<noteq> [] \<Longrightarrow>
   funnel_df steps =
     Inr \<lparr>step_col = map Step steps,
          total_col = map render_total (map (\<lambda>s. to_float64 (Total s)) steps),
          pct_col =
            (if baseline_positive steps
             then sentinel #
                  map (\<lambda>t. format_percent (f64_quot t (to_float64 (Total (steps ! 1)))))
                      (drop 1 (map (\<lambda>s. to_float64 (Total s)) steps))
             else replicate (length steps) sentinel),
          drop_off_col =
            (if baseline_positive steps
             then sentinel #
                  map (cell_value (map (\<lambda>s. to_float64 (Total s)) steps))
                      [1..<length steps - 1] @ [sentinel]
             else replicate (length steps) sentinel)\<rparr>"
proof (cases "baseline_positive steps")
  case False
  assume "steps \<noteq> []"
  with False show ?thesis
    unfolding funnel_df_def Let_def baseline_guard by simp
next
  case True
  assume ne: "steps \<noteq> []"
  let ?totals = "map (\<lambda>s. to_float64 (Total s)) steps"
  from True have n: "1 < length steps" by (simp add: baseline_positive_def)
  have b: "?totals ! 1 = to_float64 (Total (steps ! 1))" using n by simp
  from True have "gt0 (to_float64 (Total (steps ! 1)))"
    by (simp add: baseline_positive_def gt0_to_float64 split: option.splits)
  then have g: "gt0 (?totals ! 1)" by (simp only: b)
  have ps: "percentages_loop (drop 1 ?totals) (?totals ! 1) =
              Inr (map (\<lambda>t. format_percent (f64_quot t (?totals ! 1))) (drop 1 ?totals))"
    using g by (rule percentages_loop_eq)
  have ds: "drop_offs_loop ?totals [1..<length steps - 1] =
              Inr (map (cell_value ?totals) [1..<length steps - 1])"
    by (rule drop_offs_loop_eq) auto
  show ?thesis
    unfolding funnel_df_def Let_def baseline_guard
    using True n ne ps ds by (simp add: assign_column_def; arith)
qed

lemma funnel_df_no_zero_division: "funnel_df steps \<noteq> Inl ZeroDivisionError"
proof (cases "steps = []")
  case True
  then show ?thesis by (simp add: funnel_df_def)
next
  case False
  then show ?thesis by (simp add: funnel_df_eq)
qed

lemma cell_value_spec:
  "1 \<le> i \<Longrightarrow> i + 2 \<le> length steps \<Longrightarrow>
   cell_value (map (\<lambda>s. to_float64 (Total s)) steps) i = drop_off_spec steps i"
  by (auto simp: cell_value_def drop_off_spec_def gt0_to_float64 notna_to_float64
           split: option.splits)

lemma drop_off_spec_first: "drop_off_spec steps 0 = sentinel"
  by (simp add: drop_off_spec_def)

lemma drop_off_spec_last: "Suc i = length steps \<Longrightarrow> drop_off_spec steps i = sentinel"
  by (simp add: drop_off_spec_def)

lemma drop_off_list:
  assumes "1 < length steps"
  shows "sentinel # map (cell_value (map (\<lambda>s. to_float64 (Total s)) steps))
                      [1..<length steps - 1] @ [sentinel]
         = map (drop_off_spec steps) [0..<length steps]"
proof (rule nth_equalityI)
  show "length (sentinel # map (cell_value (map (\<lambda>s. to_float64 (Total s)) steps))
                      [1..<length steps - 1] @ [sentinel])
        = length (map (drop_off_spec steps) [0..<length steps])"
    using assms by simp
next
  fix i
  assume "i < length (sentinel # map (cell_value (map (\<lambda>s. to_float64 (Total s)) steps))
                      [1..<length steps - 1] @ [sentinel])"
  with assms have i: "i < length steps" by simp
  let ?xs = "map (cell_value (map (\<lambda>s. to_float64 (Total s)) steps)) [1..<length steps - 1]"
  consider "i = 0" | "Suc i = length steps" | "1 \<le> i" "i + 2 \<le> length steps"
    using i by linarith
  then show "(sentinel # ?xs @ [sentinel]) ! i = map (drop_off_spec steps) [0..<length steps] ! i"
  proof cases
    case 1
    then show ?thesis using i by (simp add: drop_off_spec_first)
  next
    case 2
    then have "i = Suc (length ?xs)" using assms by simp
    then have "(sentinel # ?xs @ [sentinel]) ! i = sentinel"
      by (simp only: nth_Cons_Suc nth_append_length)
    then show ?thesis using i 2 by (simp add: drop_off_spec_last)
  next
    case 3
    then obtain j where j: "i = Suc j" "j < length ?xs"
      by (cases i) auto
    then have "(sentinel # ?xs @ [sentinel]) ! i = ?xs ! j"
      by (simp add: nth_append)
    also have "\<dots> = cell_value (map (\<lambda>s. to_float64 (Total s)) steps) i"
      using j by simp
    also have "\<dots> = drop_off_spec steps i" using 3 by (rule cell_value_spec)
    finally show ?thesis using i by simp
  qed
qed

section \<open>Properties of the funnel table\<close>

text \<open>
  C2. When the baseline stage (index 1) is missing, or its total is absent or 0,
  the percentage and the drop-off of every stage are the sentinel, whatever the other
  totals are; and the funnel computation divides by zero on no input at all.
\<close>

theorem baseline_zero_all_sentinel:
  assumes "steps \<noteq> []"
    and "length steps \<le> 1 \<or> Total (steps ! 1) = None \<or> Total (steps ! 1) = Some 0"
  shows "(\<exists>table. funnel_df steps = Inr table
            \<and> pct_col table = replicate (length steps) sentinel
            \<and> drop_off_col table = replicate (length steps) sentinel)
         \<and> (\<forall>any_steps. funnel_df any_steps \<noteq> Inl ZeroDivisionError)"
proof -
  from assms(2) have "\<not> baseline_positive steps"
    by (auto simp: baseline_positive_def)
  then have "\<exists>table. funnel_df steps = Inr table
            \<and> pct_col table = replicate (length steps) sentinel
            \<and> drop_off_col table = replicate (length steps) sentinel"
    by (simp add: funnel_df_eq[OF assms(1)])
  moreover have "\<forall>any_steps. funnel_df any_steps \<noteq> Inl ZeroDivisionError"
    by (simp add: funnel_df_no_zero_division)
  ultimately show ?thesis by blast
qed

theorem baseline_zero_all_sentinel_witness:
  "[\<lparr>Step = ''Social Media Impressions'', Total = None\<rparr>,
           \<lparr>Step = ''Landing Page Visits'', Total = Some 0\<rparr>,
           \<lparr>Step = ''Clicked Register'', Total = Some 250\<rparr>,
           \<lparr>Step = ''Signed in with Discord'', Total = Some 40\<rparr>] \<noteq> []
   \<and> Total ([\<lparr>Step = ''Social Media Impressions'', Total = None\<rparr>,
           \<lparr>Step = ''Landing Page Visits'', Total = Some 0\<rparr>,
           \<lparr>Step = ''Clicked Register'', Total = Some 250\<rparr>,
           \<lparr>Step = ''Signed in with Discord'', Total = Some 40\<rparr>] ! 1) = Some 0
   \<and> (\<exists>table. funnel_df [\<lparr>Step = ''Social Media Impressions'', Total = None\<rparr>,
           \<lparr>Step = ''Landing Page Visits'', Total = Some 0\<rparr>,
           \<lparr>Step = ''Clicked Register'', Total = Some 250\<rparr>,
           \<lparr>Step = ''Signed in with Discord'', Total = Some 40\<rparr>] = Inr table
        \<and> pct_col table = [sentinel, sentinel, sentinel, sentinel]
        \<and> drop_off_col table = [sentinel, sentinel, sentinel, sentinel])"
  using baseline_zero_all_sentinel
    [of "[\<lparr>Step = ''Social Media Impressions'', Total = None\<rparr>,
           \<lparr>Step = ''Landing Page Visits'', Total = Some 0\<rparr>,
           \<lparr>Step = ''Clicked Register'', Total = Some 250\<rparr>,
           \<lparr>Step = ''Signed in with Discord'', Total = Some 40\<rparr>]"]
  by (simp add: numeral_eq_Suc)

text \<open>
  C8, as stated: in every funnel table built from event counts the drop-off of stage
  \<open>i\<close> is the value \<open>drop_off_spec\<close> describes. It fails for the counts page_view = 0,
  click_register = 250, discord_signin = 40: the baseline is not positive, so the
  script writes the sentinel into the whole column, where the claim has 84.00% for
  the stage "Clicked Register".
\<close>

theorem drop_off_unguarded_counterexample:
  "\<not> (\<forall>d steps table.
         funnel_steps (Mapping d) = Inr steps \<longrightarrow> funnel_df steps = Inr table \<longrightarrow>
         drop_off_col table = map (drop_off_spec steps) [0..<length steps])"
proof
  let ?d = "[''page_view'' \<mapsto> 0, ''click_register'' \<mapsto> 250, ''discord_signin'' \<mapsto> (40::int)]"
  let ?steps = "[\<lparr>Step = ''Social Media Impressions'', Total = None\<rparr>,
                 \<lparr>Step = ''Landing Page Visits'', Total = Some 0\<rparr>,
                 \<lparr>Step = ''Clicked Register'', Total = Some 250\<rparr>,
                 \<lparr>Step = ''Signed in with Discord'', Total = Some 40\<rparr>]"
  let ?table = "\<lparr>step_col = [''Social Media Impressions'', ''Landing Page Visits'',
                             ''Clicked Register'', ''Signed in with Discord''],
                 total_col = [sentinel, ''0'', ''250'', ''40''],
                 pct_col = [sentinel, sentinel, sentinel, sentinel],
                 drop_off_col = [sentinel, sentinel, sentinel, sentinel]\<rparr>"
  assume a: "\<forall>d steps table.
         funnel_steps (Mapping d) = Inr steps \<longrightarrow> funnel_df steps = Inr table \<longrightarrow>
         drop_off_col table = map (drop_off_spec steps) [0..<length steps]"
  have s: "funnel_steps (Mapping ?d) = Inr ?steps" by code_simp
  have t: "funnel_df ?steps = Inr ?table" by code_simp
  have c: "map (drop_off_spec ?steps) [0..<length ?steps]
           = [sentinel, sentinel, ''84.00%'', sentinel]" by code_simp
  from a s t have "drop_off_col ?table = map (drop_off_spec ?steps) [0..<length ?steps]"
    by blast
  with c have "sentinel = ''84.00%''" by simp
  then show False by (simp add: sentinel_def)
qed

text \<open>
  C8, amended: when the baseline stage's total is present and positive, the drop-off
  column is the one \<open>drop_off_spec\<close> describes (a percentage with two decimals of
  \<open>1 - total (i + 1) / total i\<close> for \<open>1 \<le> i \<le> n - 2\<close> when the total of stage \<open>i\<close> is present
  and positive and the total of stage \<open>i + 1\<close> is present, the sentinel otherwise, and
  the sentinel for stage 0 and for the last stage); when it is not, every stage carries
  the sentinel.
\<close>

theorem drop_off_column:
  assumes "steps \<noteq> []"
  shows "\<exists>table. funnel_df steps = Inr table
     \<and> drop_off_col table =
         (if baseline_positive steps then map (drop_off_spec steps) [0..<length steps]
          else replicate (length steps) sentinel)"
proof (cases "baseline_positive steps")
  case False
  then show ?thesis by (simp add: funnel_df_eq[OF assms])
next
  case True
  then have "1 < length steps" by (simp add: baseline_positive_def)
  from drop_off_list[OF this] True show ?thesis by (simp add: funnel_df_eq[OF assms])
qed

theorem drop_off_column_witness:
  "[\<lparr>Step = ''Social Media Impressions'', Total = None\<rparr>,
    \<lparr>Step = ''Landing Page Visits'', Total = Some 1000\<rparr>,
    \<lparr>Step = ''Clicked Register'', Total = Some 250\<rparr>,
    \<lparr>Step = ''Signed in with Discord'', Total = Some 40\<rparr>] \<noteq> []
   \<and> (\<exists>table.
         funnel_df [\<lparr>Step = ''Social Media Impressions'', Total = None\<rparr>,
                    \<lparr>Step = ''Landing Page Visits'', Total = Some 1000\<rparr>,
                    \<lparr>Step = ''Clicked Register'', Total = Some 250\<rparr>,
                    \<lparr>Step = ''Signed in with Discord'', Total = Some 40\<rparr>] = Inr table
         \<and> drop_off_col table = [sentinel, ''75.00%'', ''84.00%'', sentinel])"
proof -
  let ?steps = "[\<lparr>Step = ''Social Media Impressions'', Total = None\<rparr>,
                 \<lparr>Step = ''Landing Page Visits'', Total = Some 1000\<rparr>,
                 \<lparr>Step = ''Clicked Register'', Total = Some 250\<rparr>,
                 \<lparr>Step = ''Signed in with Discord'', Total = Some 40\<rparr>]"
  have ne: "?steps \<noteq> []" by simp
  have b: "baseline_positive ?steps" by code_simp
  have m: "map (drop_off_spec ?steps) [0..<length ?steps]
           = [sentinel, ''75.00%'', ''84.00%'', sentinel]" by code_simp
  from drop_off_column [OF ne] obtain table where
    "funnel_df ?steps = Inr table"
    "drop_off_col table =
       (if baseline_positive ?steps then map (drop_off_spec ?steps) [0..<length ?steps]
        else replicate (length ?steps) sentinel)"
    by blast
  with b m have "funnel_df ?steps = Inr table
                 \<and> drop_off_col table = [sentinel, ''75.00%'', ''84.00%'', sentinel]"
    by (simp only: if_True simp_thms)
  with ne show ?thesis by blast
qed

text \<open>
  C9. Reading an event name that the mapping does not hold gives 0, not a missing-key
  failure; the funnel reads its three counts this way: a stage whose event is absent
  has the total 0, a stage whose event is present has the reported count.
\<close>

theorem absent_event_reads_zero:
  assumes "k \<notin> dom d"
  shows "dict_get d k 0 = 0
         \<and> (\<exists>steps. funnel_steps (Mapping d) = Inr steps \<and> length steps = 4
              \<and> Total (steps ! 0) = None
              \<and> Total (steps ! 1) = Some (if ''page_view'' \<in> dom d then the (d ''page_view'') else 0)
              \<and> Total (steps ! 2) =
                  Some (if ''click_register'' \<in> dom d then the (d ''click_register'') else 0)
              \<and> Total (steps ! 3) =
                  Some (if ''discord_signin'' \<in> dom d then the (d ''discord_signin'') else 0))"
  using assms
  by (auto simp: dict_get_def funnel_steps_def dom_def numeral_eq_Suc split: option.splits)

theorem absent_event_reads_zero_witness:
  "''click_register'' \<notin> dom [''page_view'' \<mapsto> (5::int)]
   \<and> dict_get [''page_view'' \<mapsto> 5] ''click_register'' 0 = 0
   \<and> (\<exists>steps. funnel_steps (Mapping [''page_view'' \<mapsto> 5]) = Inr steps
         \<and> Total (steps ! 1) = Some 5 \<and> Total (steps ! 2) = Some 0 \<and> Total (steps ! 3) = Some 0)"
  using absent_event_reads_zero [of "''click_register''" "[''page_view'' \<mapsto> 5]"]
  by auto

section \<open>The report query: facts\<close>

lemma filters_loop_resolved:
  "map filter_of_spec specs = map Some filters \<Longrightarrow> filters_loop specs = Inr filters"
proof (induction specs arbitrary: filters)
  case Nil
  then show ?case by simp
next
  case (Cons spec specs)
  then obtain flt rest where fs: "filters = flt # rest"
    "filter_of_spec spec = Some flt" "map filter_of_spec specs = map Some rest"
    by (cases filters) auto
  obtain fname v m where spec: "spec = (fname, v, m)" by (cases spec)
  from fs(2) spec show ?case
    using Cons.IH[OF fs(3)] fs(1)
    by (auto simp: filter_of_spec_def split: sum.splits)
qed

lemma funnel_build_request:
  "build_request E [''totalUsers''] range_start range_end (Some [''eventName''])
     (Some [(''eventName'', funnel_event_names_regex, ''FULL_REGEXP'')])
   = Inr (funnel_request E range_start range_end)"
proof -
  have u: "str_upper ''FULL_REGEXP'' = ''FULL_REGEXP''"
    by (simp add: str_upper_def upper_char_def lower_letters_def upper_letters_def)
  have l: "MatchType_lookup ''FULL_REGEXP'' = Inr FULL_REGEXP"
    by (simp add: MatchType_lookup_def match_type_names_def)
  show ?thesis
    by (simp add: build_request_def filter_expression_of_def truthy_def u l
          funnel_request_def funnel_event_names_regex_def)
qed

lemma funnel_of_empty_counts: "funnel_of_counts (Mapping Map.empty) = Inr zero_table"
  by code_simp

lemma upper_char_table:
  "\<forall>p \<in> set (zip lower_letters upper_letters).
     upper_char (fst p) = snd p \<and> upper_char (snd p) = snd p"
  by code_simp

lemma same_letter_upper:
  assumes "same_letter a b"
  shows "upper_char a = upper_char b"
proof -
  from assms consider "a = b" | "(a, b) \<in> set (zip lower_letters upper_letters)"
    | "(b, a) \<in> set (zip lower_letters upper_letters)"
    by (auto simp: same_letter_def)
  then show ?thesis
  proof cases
    case 1
    then show ?thesis by simp
  next
    case 2
    with upper_char_table have "upper_char a = b \<and> upper_char b = b" by fastforce
    then show ?thesis by simp
  next
    case 3
    with upper_char_table have "upper_char b = a \<and> upper_char a = a" by fastforce
    then show ?thesis by simp
  qed
qed

lemma differ_only_in_case_upper: "differ_only_in_case s t \<Longrightarrow> str_upper s = str_upper t"
  unfolding differ_only_in_case_def str_upper_def
  by (induction s t rule: list_all2_induct) (simp_all add: same_letter_upper)

lemma filters_loop_case:
  "str_upper s = str_upper t \<Longrightarrow>
   filters_loop (pre @ (fname, v, s) # post) = filters_loop (pre @ (fname, v, t) # post)"
  by (induction pre) (auto split: sum.splits)

lemma build_request_dimensions:
  "build_request E metric_names start_dt end_dt dimension_names filter_specs = Inr request \<Longrightarrow>
   truthy (dimensions request) = truthy dimension_names"
  by (cases dimension_names)
     (auto simp: build_request_def Let_def truthy_def split: sum.splits if_splits)

section \<open>Properties of the report query and of the date range\<close>

text \<open>
  C3. When the backend call fails, whatever the error, \<open>run_ga4_report\<close> returns the safe
  default (an empty mapping if dimension names were given, 0 if not) and reports the
  error instead of raising; the funnel of a run whose backend call fails is the
  four-stage table with the totals 0 and the sentinel in the derived columns.
\<close>

theorem backend_failure_safe_default:
  assumes "run_report E request = Inl e"
  shows "(build_request E metric_names start_dt end_dt dimension_names filter_specs = Inr request
            \<longrightarrow> run_ga4_report E metric_names start_dt end_dt dimension_names filter_specs
                = (if truthy dimension_names then Mapping Map.empty else Count 0, Some e))
         \<and> (date_handling E lookback_days = Inr (range_start, range_end)
              \<and> request = funnel_request E range_start range_end
            \<longrightarrow> dashboard_funnel E lookback_days = Inr (zero_table, Some e))"
proof (intro conjI impI)
  assume "build_request E metric_names start_dt end_dt dimension_names filter_specs = Inr request"
  with assms show "run_ga4_report E metric_names start_dt end_dt dimension_names filter_specs
                = (if truthy dimension_names then Mapping Map.empty else Count 0, Some e)"
    by (simp add: run_ga4_report_def try_body_def)
next
  assume a: "date_handling E lookback_days = Inr (range_start, range_end)
              \<and> request = funnel_request E range_start range_end"
  with assms have "funnel_event_counts E range_start range_end = (Mapping Map.empty, Some e)"
    by (simp add: funnel_event_counts_def run_ga4_report_def try_body_def
          funnel_build_request truthy_def)
  with a show "dashboard_funnel E lookback_days = Inr (zero_table, Some e)"
    by (simp add: dashboard_funnel_def funnel_of_empty_counts)
qed

theorem backend_failure_safe_default_witness:
  "run_report failing_env
     (funnel_request failing_env
        (example_now\<lparr>ordinal := 738987, hour := 0, minute := 0, second := 0, microsecond := 0\<rparr>)
        example_now)
   = Inl (BackendError ''403 permission denied'')
   \<and> run_ga4_report failing_env [''activeUsers''] example_now example_now None None
       = (Count 0, Some (BackendError ''403 permission denied''))
   \<and> dashboard_funnel failing_env 14
       = Inr (zero_table, Some (BackendError ''403 permission denied''))"
proof -
  let ?e = "BackendError ''403 permission denied''"
  let ?start = "example_now\<lparr>ordinal := 738987, hour := 0, minute := 0, second := 0,
                             microsecond := 0\<rparr>"
  let ?r1 = "\<lparr>property = ''properties/123456'', metrics = [Metric ''activeUsers''],
              date_ranges = [\<lparr>start_date = ''2024-05-01'', end_date = ''2024-05-01''\<rparr>],
              dimensions = None, dimension_filter = None\<rparr>"
  have f: "run_report failing_env r = Inl ?e" for r
    by (simp add: failing_env_def)
  have b: "build_request failing_env [''activeUsers''] example_now example_now None None = Inr ?r1"
    by (simp add: build_request_def filter_expression_of_def truthy_def format_date_def
          failing_env_def)
  have d: "date_handling failing_env 14 = Inr (?start, example_now)"
    by (simp add: date_handling_def timedelta_def datetime_sub_def MAXORDINAL_def
          failing_env_def example_now_def)
  from backend_failure_safe_default
    [of failing_env ?r1 ?e "[''activeUsers'']" example_now example_now None None, OF f] b
  have 1: "run_ga4_report failing_env [''activeUsers''] example_now example_now None None
            = (Count 0, Some ?e)"
    by (simp add: truthy_def)
  from backend_failure_safe_default
    [of failing_env "funnel_request failing_env ?start example_now" ?e _ _ _ _ _ 14
       ?start example_now, OF f] d
  have 2: "dashboard_funnel failing_env 14 = Inr (zero_table, Some ?e)"
    by blast
  from f 1 2 show ?thesis by blast
qed

text \<open>
  C4. A call without dimension names whose backend call succeeds returns 0 when the
  response has no rows, and otherwise the integer value of the first metric of the
  first row.
\<close>

theorem undimensioned_result:
  assumes "\<not> truthy dimension_names"
    and "build_request E metric_names start_dt end_dt dimension_names filter_specs = Inr request"
    and "run_report E request = Inr response"
  shows "(rows response = [] \<longrightarrow>
            run_ga4_report E metric_names start_dt end_dt dimension_names filter_specs
              = (Count 0, None))
         \<and> (\<forall>row rest m ms n.
               rows response = row # rest \<and> metric_values row = m # ms \<and> int_of_str E m = Inr n
               \<longrightarrow> run_ga4_report E metric_names start_dt end_dt dimension_names filter_specs
                     = (Count n, None))"
proof -
  from assms(1) build_request_dimensions[OF assms(2)]
  have "\<not> truthy (dimensions request)" by simp
  with assms(2,3) show ?thesis
    by (auto simp: run_ga4_report_def try_body_def shape_response_def first_metric_def)
qed

theorem undimensioned_result_witness:
  "\<not> truthy (None :: string list option)
   \<and> run_report answering_env
        \<lparr>property = ''properties/123456'', metrics = [Metric ''activeUsers''],
         date_ranges = [\<lparr>start_date = ''2024-05-01'', end_date = ''2024-05-01''\<rparr>],
         dimensions = None, dimension_filter = None\<rparr>
       = Inr \<lparr>rows = [\<lparr>dimension_values = [], metric_values = [''42'']\<rparr>]\<rparr>
   \<and> run_ga4_report answering_env [''activeUsers''] example_now example_now None None
       = (Count 42, None)"
proof -
  let ?r1 = "\<lparr>property = ''properties/123456'', metrics = [Metric ''activeUsers''],
              date_ranges = [\<lparr>start_date = ''2024-05-01'', end_date = ''2024-05-01''\<rparr>],
              dimensions = None, dimension_filter = None\<rparr>"
  let ?resp = "\<lparr>rows = [\<lparr>dimension_values = [], metric_values = [''42'']\<rparr>]\<rparr>"
  have t: "\<not> truthy (None :: string list option)" by (simp add: truthy_def)
  have b: "build_request answering_env [''activeUsers''] example_now example_now None None
            = Inr ?r1"
    by (simp add: build_request_def filter_expression_of_def truthy_def format_date_def
          answering_env_def)
  have r: "run_report answering_env ?r1 = Inr ?resp" by (simp add: answering_env_def)
  have i: "int_of_str answering_env ''42'' = Inr 42" by (simp add: answering_env_def)
  from undimensioned_result [OF t b r] i
  have "run_ga4_report answering_env [''activeUsers''] example_now example_now None None
          = (Count 42, None)"
    by simp
  with t r show ?thesis by blast
qed

text \<open>
  C5. When the match modes of the filter triples resolve, the request carries, for
  exactly one triple, that triple's string filter unwrapped, and for two or more triples
  the AND group of the triples' string filters, in order.
\<close>

theorem filter_expression_shape:
  assumes "map filter_of_spec specs = map Some filters"
  shows "\<exists>request.
           build_request E metric_names start_dt end_dt dimension_names (Some specs) = Inr request
           \<and> dimension_filter request =
               (if length specs = 1 then Some (FilterExpression_filter (filters ! 0))
                else if 2 \<le> length specs
                  then Some (FilterExpression_and_group (map FilterExpression_filter filters))
                  else None)"
proof -
  from assms have l: "length filters = length specs"
    by (metis length_map)
  from assms have fl: "filters_loop specs = Inr filters" by (rule filters_loop_resolved)
  have fe: "filter_expression_of (Some specs) =
              (if specs = [] then Inr None
               else if length specs = 1 then Inr (Some (FilterExpression_filter (filters ! 0)))
               else Inr (Some (FilterExpression_and_group (map FilterExpression_filter filters))))"
    by (simp add: filter_expression_of_def truthy_def fl l)
  have c: "length specs = 0 \<or> length specs = 1 \<or> 2 \<le> length specs"
    by arith
  then show ?thesis
    by (auto simp: build_request_def Let_def fe)
qed

theorem filter_expression_shape_witness:
  "map filter_of_spec [(''eventName'', ''sign'', ''begins_with''), (''country'', ''US'', ''Exact'')]
     = map Some [\<lparr>field_name = ''eventName'',
                   string_filter = \<lparr>filter_value = ''sign'', match_type = BEGINS_WITH\<rparr>\<rparr>,
                 \<lparr>field_name = ''country'',
                   string_filter = \<lparr>filter_value = ''US'', match_type = EXACT\<rparr>\<rparr>]
   \<and> (\<exists>request.
         build_request failing_env [''totalUsers''] example_now example_now None
           (Some [(''eventName'', ''sign'', ''begins_with''), (''country'', ''US'', ''Exact'')])
           = Inr request
         \<and> dimension_filter request =
             Some (FilterExpression_and_group
                    [FilterExpression_filter
                       \<lparr>field_name = ''eventName'',
                        string_filter = \<lparr>filter_value = ''sign'', match_type = BEGINS_WITH\<rparr>\<rparr>,
                     FilterExpression_filter
                       \<lparr>field_name = ''country'',
                        string_filter = \<lparr>filter_value = ''US'', match_type = EXACT\<rparr>\<rparr>]))"
proof -
  have m: "map filter_of_spec
             [(''eventName'', ''sign'', ''begins_with''), (''country'', ''US'', ''Exact'')]
     = map Some [\<lparr>field_name = ''eventName'',
                   string_filter = \<lparr>filter_value = ''sign'', match_type = BEGINS_WITH\<rparr>\<rparr>,
                 \<lparr>field_name = ''country'',
                   string_filter = \<lparr>filter_value = ''US'', match_type = EXACT\<rparr>\<rparr>]"
    by code_simp
  from filter_expression_shape [OF m, of failing_env "[''totalUsers'']" example_now example_now None]
  show ?thesis using m by simp
qed

text \<open>
  C7. The funnel's query is one request with a single filter: a full regular expression
  match of \<^verbatim>\<open>eventName\<close> against the alternation
  \<^verbatim>\<open>page_view|click_register|discord_signin\<close>, passed unwrapped, never an AND group;
  \<open>funnel_event_counts\<close> is the shaped answer of the backend to that request.
\<close>

theorem funnel_query_single_regex_filter:
  "build_request E [''totalUsers''] range_start range_end (Some [''eventName''])
     (Some [(''eventName'', funnel_event_names_regex, ''FULL_REGEXP'')])
     = Inr (funnel_request E range_start range_end)
   \<and> funnel_event_counts E range_start range_end =
       (case run_report E (funnel_request E range_start range_end) of
          Inl e \<Rightarrow> (Mapping Map.empty, Some e)
        | Inr response \<Rightarrow>
            (case rows_loop E (rows response) Map.empty of
               Inl e \<Rightarrow> (Mapping Map.empty, Some e)
             | Inr result \<Rightarrow> (Mapping result, None)))
   \<and> (\<forall>es. dimension_filter (funnel_request E range_start range_end)
             \<noteq> Some (FilterExpression_and_group es))"
proof -
  have d: "dimensions (funnel_request E range_start range_end) = Some [Dimension ''eventName'']"
    by (simp add: funnel_request_def)
  have "funnel_event_counts E range_start range_end =
       (case run_report E (funnel_request E range_start range_end) of
          Inl e \<Rightarrow> (Mapping Map.empty, Some e)
        | Inr response \<Rightarrow>
            (case rows_loop E (rows response) Map.empty of
               Inl e \<Rightarrow> (Mapping Map.empty, Some e)
             | Inr result \<Rightarrow> (Mapping result, None)))"
    by (simp add: funnel_event_counts_def run_ga4_report_def try_body_def
          funnel_build_request shape_response_def d truthy_def split: sum.splits)
  moreover have "\<forall>es. dimension_filter (funnel_request E range_start range_end)
             \<noteq> Some (FilterExpression_and_group es)"
    by (simp add: funnel_request_def)
  ultimately show ?thesis using funnel_build_request by blast
qed

text \<open>
  C10. The match mode is looked up by its upper-case form, so two calls that differ
  only in the letter case of one triple's match mode build the same request and return
  the same result.
\<close>

theorem match_mode_case_insensitive:
  assumes "differ_only_in_case s t"
  shows "build_request E metric_names start_dt end_dt dimension_names
           (Some (before @ (fname, v, s) # after))
         = build_request E metric_names start_dt end_dt dimension_names
             (Some (before @ (fname, v, t) # after))
         \<and> run_ga4_report E metric_names start_dt end_dt dimension_names
             (Some (before @ (fname, v, s) # after))
           = run_ga4_report E metric_names start_dt end_dt dimension_names
               (Some (before @ (fname, v, t) # after))"
proof -
  from assms have "str_upper s = str_upper t" by (rule differ_only_in_case_upper)
  then have "filters_loop (before @ (fname, v, s) # after)
             = filters_loop (before @ (fname, v, t) # after)"
    by (rule filters_loop_case)
  then have "filter_expression_of (Some (before @ (fname, v, s) # after))
             = filter_expression_of (Some (before @ (fname, v, t) # after))"
    by (simp add: filter_expression_of_def truthy_def)
  then have "build_request E metric_names start_dt end_dt dimension_names
           (Some (before @ (fname, v, s) # after))
         = build_request E metric_names start_dt end_dt dimension_names
             (Some (before @ (fname, v, t) # after))"
    by (simp add: build_request_def)
  then show ?thesis by (simp add: run_ga4_report_def try_body_def)
qed

theorem match_mode_case_insensitive_witness:
  "differ_only_in_case ''full_regexp'' ''FULL_REGEXP''
   \<and> build_request failing_env [''totalUsers''] example_now example_now (Some [''eventName''])
        (Some [(''eventName'', funnel_event_names_regex, ''full_regexp'')])
      = Inr (funnel_request failing_env example_now example_now)
   \<and> run_ga4_report failing_env [''totalUsers''] example_now example_now (Some [''eventName''])
        (Some [(''eventName'', funnel_event_names_regex, ''full_regexp'')])
      = funnel_event_counts failing_env example_now example_now"
proof -
  have d: "differ_only_in_case ''full_regexp'' ''FULL_REGEXP''" by code_simp
  from match_mode_case_insensitive
    [OF d, of failing_env "[''totalUsers'']" example_now example_now "Some [''eventName'']"
       "[]" "''eventName''" funnel_event_names_regex "[]"]
  show ?thesis using d by (simp add: funnel_build_request funnel_event_counts_def)
qed

text \<open>
  C6. For a lookback of 7, 14 or 30 days, and a clock that shows a day from which so
  many days can be counted back, the range ends at the present moment of the time zone
  \<^verbatim>\<open>America/Los_Angeles\<close>, starts at midnight \<open>lookback - 1\<close> days before today, and so
  spans exactly \<open>lookback\<close> calendar days, both ends included.
\<close>

theorem lookback_range:
  assumes "lookback_days \<in> set LOOKBACK_OPTIONS"
    and "lookback_days \<le> ordinal (now_in E TIMEZONE)"
    and "ordinal (now_in E TIMEZONE) \<le> MAXORDINAL"
  shows "\<exists>range_start range_end.
           date_handling E lookback_days = Inr (range_start, range_end)
           \<and> range_end = now_in E ''America/Los_Angeles''
           \<and> ordinal range_start = ordinal range_end - (lookback_days - 1)
           \<and> int (card {ordinal range_start .. ordinal range_end}) = lookback_days
           \<and> (hour range_start, minute range_start, second range_start, microsecond range_start)
               = (0, 0, 0, 0)
           \<and> tzinfo range_start = tzinfo range_end"
proof -
  from assms(1) have l: "lookback_days = 7 \<or> lookback_days = 14 \<or> lookback_days = 30"
    by (simp add: LOOKBACK_OPTIONS_def)
  then have t: "timedelta (lookback_days - 1) = Inr (lookback_days - 1)"
    by (auto simp: timedelta_def)
  from l assms(2,3) have
    "0 < ordinal (now_in E TIMEZONE) - (lookback_days - 1)
     \<and> ordinal (now_in E TIMEZONE) - (lookback_days - 1) \<le> MAXORDINAL"
    by auto
  with l show ?thesis
    by (auto simp: date_handling_def Let_def t datetime_sub_def TIMEZONE_def)
qed

theorem lookback_range_witness:
  "(14::int) \<in> set LOOKBACK_OPTIONS
   \<and> 14 \<le> ordinal (now_in failing_env TIMEZONE)
   \<and> ordinal (now_in failing_env TIMEZONE) \<le> MAXORDINAL
   \<and> (\<exists>range_start range_end.
         date_handling failing_env 14 = Inr (range_start, range_end)
         \<and> range_end = example_now
         \<and> ordinal range_start = 738987
         \<and> int (card {ordinal range_start .. ordinal range_end}) = 14)"
proof -
  have h: "(14::int) \<in> set LOOKBACK_OPTIONS"
    "14 \<le> ordinal (now_in failing_env TIMEZONE)"
    "ordinal (now_in failing_env TIMEZONE) \<le> MAXORDINAL"
    by (simp_all add: LOOKBACK_OPTIONS_def failing_env_def example_now_def MAXORDINAL_def)
  from lookback_range [OF h]
  show ?thesis using h by (auto simp: failing_env_def example_now_def)
qed

end
